theory Spec2Isabelle
  imports Main "HOL-Library.Mapping" "HOL-Library.AList_Mapping"
begin

section \<open>The scientist experiment runner (scientist.go)\<close>

text \<open>
  A shallow embedding of \<^verbatim>\<open>scientist.go\<close>: \<^verbatim>\<open>Run\<close>, \<^verbatim>\<open>mismatching\<close>,
  \<^verbatim>\<open>ignoring\<close>, \<^verbatim>\<open>behaviorNotFound\<close>, \<^verbatim>\<open>observe\<close> and \<^verbatim>\<open>runBehavior\<close>.

  Conventions of the embedding:
  \<^item> a Go value of type \<^verbatim>\<open>interface{}\<close> is an \<open>'a option\<close>, \<open>None\<close> being \<^verbatim>\<open>nil\<close>;
  \<^item> a Go \<^verbatim>\<open>error\<close> is an \<open>'a error option\<close>, \<open>None\<close> being \<^verbatim>\<open>nil\<close>;
  \<^item> a pointer \<^verbatim>\<open>*Observation\<close> is an \<open>'a Observation option\<close>, \<open>None\<close> being the
    nil pointer (the slices of a \<^verbatim>\<open>Result\<close> are allocated full of nil pointers);
  \<^item> a run-time panic that leaves \<^verbatim>\<open>Run\<close> is the left summand of its result;
  \<^item> the calls \<^verbatim>\<open>Run\<close> makes to the publisher and to the error reporter are
    returned as a log next to the \<^verbatim>\<open>Result\<close>;
  \<^item> the Go map \<^verbatim>\<open>e.behaviors\<close> is a \<open>mapping\<close>; \<^verbatim>\<open>len\<close> is its \<open>Mapping.size\<close>;
  \<^item> the order in which \<^verbatim>\<open>range e.behaviors\<close> yields the keys of the map is not
    fixed by Go; it is an argument of \<open>Run\<close>;
  \<^item> the wall-clock fields \<^verbatim>\<open>Started\<close> and \<^verbatim>\<open>Runtime\<close> of an Observation and the
    back pointers \<^verbatim>\<open>Experiment\<close> of an Observation and of a Result are left out;
  \<^item> a behavior is given by what one call of it does (it returns or it panics);
    the hooks of an experiment are functions that return.
\<close>

subsection \<open>Errors, panics and behaviors\<close>

datatype 'a fmt_arg = string_arg string | value_arg 'a

datatype 'a error =
    errors_New string
  | fmt_Errorf string "'a fmt_arg list"
  | runtime_error string
  | foreign_error string

text \<open>
  What \<^verbatim>\<open>recover()\<close> returns for a panic: nil, or a value by the cases of the type
  switch in \<^verbatim>\<open>runBehavior\<close>. It is nil for \<^verbatim>\<open>panic(nil)\<close> before Go 1.21 (and later
  under \<^verbatim>\<open>GODEBUG=panicnil=1\<close>); from Go 1.21 on \<^verbatim>\<open>panic(nil)\<close> is delivered as a run-time
  error, an error payload.
\<close>

datatype 'a payload =
    nil_payload
  | string_payload string
  | error_payload "'a error"
  | other_payload 'a

datatype 'a outcome =
    returns "'a option" "'a error option"
  | panics "'a payload"

datatype 'a behaviorFunc = nil_func | func "'a outcome"

datatype panic = makeslice_len_out_of_range | index_out_of_range | nil_pointer_dereference

subsection \<open>Observation, ResultError, Result\<close>

record 'a Observation =
  Name :: string
  Value :: "'a option"
  Err :: "'a error option"

record 'a ResultError =
  Operation :: string
  Experiment :: string
  Err :: "'a error"

record 'a Result =
  Control :: "'a Observation option"
  Observations :: "'a Observation option list"
  Candidates :: "'a Observation option list"
  Ignored :: "'a Observation option list"
  Mismatched :: "'a Observation option list"
  Errors :: "'a ResultError list"

datatype 'a call =
    publisher_call "'a Result"
  | errorReporter_call "'a ResultError list"

subsection \<open>The experiment\<close>

text \<open>
  Modelled from the spec: the type \<^verbatim>\<open>Experiment\<close> is declared outside
  \<^verbatim>\<open>scientist.go\<close>. The record has the fields \<^verbatim>\<open>scientist.go\<close> reads, with the
  signatures of section 6 of the specification: the name, the map of behaviors, the
  comparator, the ordered ignore rules, the pre-trial hook and the publisher. The
  error reporter only receives a batch; its call is recorded in the log of \<open>Run\<close>.
\<close>

record 'a Experiment =
  Name :: string
  behaviors :: "(string, 'a behaviorFunc) mapping"
  comparator :: "'a option \<Rightarrow> 'a option \<Rightarrow> bool \<times> 'a error option"
  ignores :: "('a option \<Rightarrow> 'a option \<Rightarrow> bool \<times> 'a error option) list"
  beforeRun :: "unit \<Rightarrow> 'a error option"
  publisher :: "'a Result \<Rightarrow> 'a error option"

text \<open>
  Modelled from the spec: the method \<^verbatim>\<open>resultErr\<close> of \<^verbatim>\<open>Experiment\<close> is declared
  outside \<^verbatim>\<open>scientist.go\<close>. By section 3 of the specification a ResultError tags
  a failure with the operation during which it occurred and the experiment name,
  wrapping the underlying error.
\<close>

definition resultErr :: "'a Experiment \<Rightarrow> string \<Rightarrow> 'a error \<Rightarrow> 'a ResultError" where
  "resultErr e name err =
     \<lparr>Operation = name, Experiment = Experiment.Name e, ResultError.Err = err\<rparr>"

text \<open>\<^verbatim>\<open>e.behaviors[name]\<close>: the stored function, or the zero value for a missing key.\<close>

definition behaviors_at :: "'a Experiment \<Rightarrow> string \<Rightarrow> 'a behaviorFunc" where
  "behaviors_at e name = (case Mapping.lookup (behaviors e) name of None \<Rightarrow> nil_func | Some b \<Rightarrow> b)"

text \<open>
  A list \<open>ks\<close> is an order in which \<^verbatim>\<open>range e.behaviors\<close> can yield the keys: every
  key of the map once.
\<close>

definition range_order :: "'a Experiment \<Rightarrow> string list \<Rightarrow> bool" where
  "range_order e ks = (distinct ks \<and> set ks = Mapping.keys (behaviors e))"

subsection \<open>The observer\<close>

definition behaviorNotFound :: "'a Experiment \<Rightarrow> string \<Rightarrow> 'a error" where
  "behaviorNotFound e name =
     fmt_Errorf ''Behavior %q not found for experiment %q''
       [string_arg name, string_arg (Experiment.Name e)]"

text \<open>One call \<^verbatim>\<open>b()\<close>; calling a nil function value is a run-time panic.\<close>

definition call_behavior :: "'a behaviorFunc \<Rightarrow> 'a outcome" where
  "call_behavior b =
     (case b of
        nil_func \<Rightarrow>
          panics (error_payload (runtime_error ''invalid memory address or nil pointer dereference''))
      | func out \<Rightarrow> out)"

text \<open>
  \<^verbatim>\<open>runBehavior\<close>: the deferred function stops every panic of \<^verbatim>\<open>b()\<close>. When
  \<^verbatim>\<open>recover()\<close> is not nil it sets the value to nil and the error by the type switch;
  when it is nil the test \<^verbatim>\<open>er != nil\<close> fails and the named results keep their zero
  values, nil and nil, since \<^verbatim>\<open>b()\<close> assigned nothing.
\<close>

definition runBehavior ::
  "'a Experiment \<Rightarrow> string \<Rightarrow> 'a behaviorFunc \<Rightarrow> 'a option \<times> 'a error option" where
  "runBehavior e name b =
     (case call_behavior b of
        returns v err \<Rightarrow> (v, err)
      | panics er \<Rightarrow>
          (case er of
             nil_payload \<Rightarrow> (None, None)
           | string_payload t \<Rightarrow> (None, Some (errors_New t))
           | error_payload t \<Rightarrow> (None, Some t)
           | other_payload t \<Rightarrow> (None, Some (fmt_Errorf ''%v'' [value_arg t]))))"

definition observe :: "'a Experiment \<Rightarrow> string \<Rightarrow> 'a behaviorFunc \<Rightarrow> 'a Observation" where
  "observe e name b0 =
     (let b = (if b0 = nil_func then behaviors_at e name else b0)
      in if b = nil_func
         then \<lparr>Observation.Name = name, Value = None, Observation.Err = Some (behaviorNotFound e name)\<rparr>
         else (case runBehavior e name b of
                 (v, err) \<Rightarrow> \<lparr>Observation.Name = name, Value = v, Observation.Err = err\<rparr>))"

subsection \<open>Comparing and ignoring\<close>

definition mismatching ::
  "'a Experiment \<Rightarrow> 'a Observation \<Rightarrow> 'a Observation \<Rightarrow> bool \<times> 'a error option" where
  "mismatching e control candidate =
     (case comparator e (Value control) (Value candidate) of
        (matching, err) \<Rightarrow> (\<not> matching, err))"

fun ignoring_rules ::
  "('a option \<Rightarrow> 'a option \<Rightarrow> bool \<times> 'a error option) list \<Rightarrow> 'a Observation \<Rightarrow> 'a Observation
     \<Rightarrow> bool \<times> 'a error option" where
  "ignoring_rules [] control candidate = (False, None)"
| "ignoring_rules (i # rest) control candidate =
     (case i (Value control) (Value candidate) of
        (ok, Some err) \<Rightarrow> (False, Some err)
      | (ok, None) \<Rightarrow> if ok then (True, None) else ignoring_rules rest control candidate)"

definition ignoring ::
  "'a Experiment \<Rightarrow> 'a Observation \<Rightarrow> 'a Observation \<Rightarrow> bool \<times> 'a error option" where
  "ignoring e control candidate = ignoring_rules (ignores e) control candidate"

subsection \<open>The runner\<close>

text \<open>
  The body of the loop of \<^verbatim>\<open>Run\<close> for the key \<open>bname\<close> and its function \<open>b\<close>, on
  the loop's state: the index \<open>i\<close> and the Result \<open>r\<close>. A store into a slice at an
  index that is not below its length panics.
\<close>

definition Run_body ::
  "'a Experiment \<Rightarrow> string \<Rightarrow> string \<Rightarrow> 'a behaviorFunc \<Rightarrow> nat \<times> 'a Result
     \<Rightarrow> panic + nat \<times> 'a Result" where
  "Run_body e name bname b s =
     (case s of (i, r) \<Rightarrow>
      if bname = name then Inr (i, r)
      else
        let c = observe e bname b in
        if \<not> i < length (Candidates r) then Inl index_out_of_range
        else
          let r1 = r\<lparr>Candidates := (Candidates r)[i := Some c]\<rparr>;
              i1 = i + 1
          in
          if \<not> i1 < length (Observations r1) then Inl index_out_of_range
          else
            let r2 = r1\<lparr>Observations := (Observations r1)[i1 := Some c]\<rparr> in
            (case Control r2 of
               None \<Rightarrow> Inl nil_pointer_dereference
             | Some control \<Rightarrow>
                 (case mismatching e control c of
                    (mismatched0, err) \<Rightarrow>
                      let mismatched = (if err \<noteq> None then True else mismatched0);
                          r3 = (case err of
                                  Some er \<Rightarrow> r2\<lparr>Errors := Errors r2 @ [resultErr e ''compare'' er]\<rparr>
                                | None \<Rightarrow> r2)
                      in
                      if \<not> mismatched then Inr (i1, r3)
                      else
                        (case ignoring e control c of
                           (ignored0, err') \<Rightarrow>
                             let ignored = (if err' \<noteq> None then False else ignored0);
                                 r4 = (case err' of
                                         Some er \<Rightarrow> r3\<lparr>Errors := Errors r3 @ [resultErr e ''ignore'' er]\<rparr>
                                       | None \<Rightarrow> r3)
                             in
                             if ignored then Inr (i1, r4\<lparr>Ignored := Ignored r4 @ [Some c]\<rparr>)
                             else Inr (i1, r4\<lparr>Mismatched := Mismatched r4 @ [Some c]\<rparr>)))))"

text \<open>The loop \<^verbatim>\<open>for bname, b := range e.behaviors\<close>, over the keys in the order \<open>ks\<close>.\<close>

fun Run_loop ::
  "'a Experiment \<Rightarrow> string \<Rightarrow> string list \<Rightarrow> nat \<times> 'a Result \<Rightarrow> panic + nat \<times> 'a Result" where
  "Run_loop e name [] s = Inr s"
| "Run_loop e name (bname # rest) s =
     (case Run_body e name bname (behaviors_at e bname) s of
        Inl p \<Rightarrow> Inl p
      | Inr s' \<Rightarrow> Run_loop e name rest s')"

text \<open>
  \<^verbatim>\<open>Run(e, name)\<close>, with the keys of \<^verbatim>\<open>e.behaviors\<close> ranged over in the order \<open>ks\<close>.
  \<^verbatim>\<open>make([]*Observation, numCandidates)\<close> panics when \<open>numCandidates\<close> is negative;
  past it the other three allocations succeed. The publisher receives the Result
  by value, before the \<^verbatim>\<open>publish\<close> error is appended.
\<close>

definition Run ::
  "'a Experiment \<Rightarrow> string list \<Rightarrow> string \<Rightarrow> panic + 'a Result \<times> 'a call list" where
  "Run e ks name =
     (let r0 = \<lparr>Control = None, Observations = [], Candidates = [], Ignored = [],
                Mismatched = [], Errors = []\<rparr>;
          r1 = (case beforeRun e () of
                  Some err \<Rightarrow> r0\<lparr>Errors := Errors r0 @ [resultErr e ''before_run'' err]\<rparr>
                | None \<Rightarrow> r0);
          numCandidates = int (Mapping.size (behaviors e)) - 1;
          r2 = r1\<lparr>Control := Some (observe e name (behaviors_at e name))\<rparr>
      in
      if numCandidates < 0 then Inl makeslice_len_out_of_range
      else
        let r3 = r2\<lparr>Candidates := replicate (nat numCandidates) None,
                    Ignored := [],
                    Mismatched := [],
                    Observations := replicate (nat (numCandidates + 1)) None\<rparr>;
            r4 = r3\<lparr>Observations := (Observations r3)[0 := Control r3]\<rparr>
        in
        (case Run_loop e name ks (0, r4) of
           Inl p \<Rightarrow> Inl p
         | Inr (i, r5) \<Rightarrow>
             let r6 = (case publisher e r5 of
                         Some err \<Rightarrow> r5\<lparr>Errors := Errors r5 @ [resultErr e ''publish'' err]\<rparr>
                       | None \<Rightarrow> r5)
             in
             Inr (r6,
                  publisher_call r5 #
                    (if length (Errors r6) > 0 then [errorReporter_call (Errors r6)] else []))))"

subsection \<open>What a completed run holds\<close>

text \<open>The Observation the runner makes of the behavior registered under \<open>bname\<close>.\<close>

definition observation_of :: "'a Experiment \<Rightarrow> string \<Rightarrow> 'a Observation" where
  "observation_of e bname = observe e bname (behaviors_at e bname)"

text \<open>The value of \<^verbatim>\<open>mismatched\<close> after the comparator's error has been looked at.\<close>

definition is_mismatched :: "'a Experiment \<Rightarrow> 'a Observation \<Rightarrow> 'a Observation \<Rightarrow> bool" where
  "is_mismatched e control c = (case mismatching e control c of (m, err) \<Rightarrow> err \<noteq> None \<or> m)"

text \<open>The candidate is appended to \<^verbatim>\<open>Ignored\<close>.\<close>

definition is_ignored :: "'a Experiment \<Rightarrow> 'a Observation \<Rightarrow> 'a Observation \<Rightarrow> bool" where
  "is_ignored e control c = (is_mismatched e control c \<and> ignoring e control c = (True, None))"

text \<open>The candidate is appended to \<^verbatim>\<open>Mismatched\<close>.\<close>

definition is_reported :: "'a Experiment \<Rightarrow> 'a Observation \<Rightarrow> 'a Observation \<Rightarrow> bool" where
  "is_reported e control c = (is_mismatched e control c \<and> ignoring e control c \<noteq> (True, None))"

text \<open>The ResultError one iteration appends for the comparator.\<close>

definition compare_errors :: "'a Experiment \<Rightarrow> 'a Observation \<Rightarrow> 'a Observation \<Rightarrow> 'a ResultError list" where
  "compare_errors e control c =
     (case snd (mismatching e control c) of Some er \<Rightarrow> [resultErr e ''compare'' er] | None \<Rightarrow> [])"

text \<open>The ResultError one iteration appends for the ignore rules.\<close>

definition ignore_errors :: "'a Experiment \<Rightarrow> 'a Observation \<Rightarrow> 'a Observation \<Rightarrow> 'a ResultError list" where
  "ignore_errors e control c =
     (if is_mismatched e control c
      then (case snd (ignoring e control c) of Some er \<Rightarrow> [resultErr e ''ignore'' er] | None \<Rightarrow> [])
      else [])"

text \<open>The keys the loop does not skip, in the order of the range.\<close>

definition candidates_of :: "string \<Rightarrow> string list \<Rightarrow> string list" where
  "candidates_of name ks = filter (\<lambda>b. b \<noteq> name) ks"

text \<open>The ResultErrors of the iteration for the key \<open>b\<close>.\<close>

definition errors_of :: "'a Experiment \<Rightarrow> 'a Observation \<Rightarrow> string \<Rightarrow> 'a ResultError list" where
  "errors_of e control b =
     compare_errors e control (observation_of e b) @ ignore_errors e control (observation_of e b)"

text \<open>The ResultError of the pre-trial hook.\<close>

definition before_errors :: "'a Experiment \<Rightarrow> 'a ResultError list" where
  "before_errors e =
     (case beforeRun e () of Some err \<Rightarrow> [resultErr e ''before_run'' err] | None \<Rightarrow> [])"

text \<open>The ResultError of the publisher, called on the Result \<open>r\<close>.\<close>

definition publish_errors :: "'a Experiment \<Rightarrow> 'a Result \<Rightarrow> 'a ResultError list" where
  "publish_errors e r =
     (case publisher e r of Some err \<Rightarrow> [resultErr e ''publish'' err] | None \<Rightarrow> [])"

text \<open>The Result on entry to the loop.\<close>

definition initial_result :: "'a Experiment \<Rightarrow> string \<Rightarrow> 'a Result" where
  "initial_result e name =
     \<lparr>Control = Some (observation_of e name),
      Observations = (replicate (Mapping.size (behaviors e)) None)[0 := Some (observation_of e name)],
      Candidates = replicate (Mapping.size (behaviors e) - 1) None,
      Ignored = [], Mismatched = [],
      Errors = before_errors e\<rparr>"

text \<open>The end of \<^verbatim>\<open>Run\<close> after the loop has left the Result \<open>p\<close>: what is returned, and the calls made.\<close>

definition published :: "'a Experiment \<Rightarrow> 'a Result \<Rightarrow> 'a Result \<times> 'a call list" where
  "published e p =
     (p\<lparr>Errors := Errors p @ publish_errors e p\<rparr>,
      publisher_call p #
        (if Errors p @ publish_errors e p = [] then []
         else [errorReporter_call (Errors p @ publish_errors e p)]))"

subsection \<open>Example experiments\<close>

text \<open>
  The experiment \<open>trial\<close>: the control returns 5; \<open>same\<close> returns 5, \<open>noisy\<close> returns 6,
  \<open>wrong\<close> returns 7 and \<open>crash\<close> panics. The comparator fails on a nil candidate value,
  the second ignore rule ignores the value 6, the third ignore rule fails, and the
  pre-trial hook and the publisher fail.
\<close>

definition trial_comparator :: "nat option \<Rightarrow> nat option \<Rightarrow> bool \<times> nat error option" where
  "trial_comparator a b =
     (case b of None \<Rightarrow> (True, Some (foreign_error ''cannot compare nil'')) | Some v \<Rightarrow> (a = b, None))"

definition trial_ignores :: "(nat option \<Rightarrow> nat option \<Rightarrow> bool \<times> nat error option) list" where
  "trial_ignores =
     [\<lambda>a b. (False, None),
      \<lambda>a b. (b = Some 6, None),
      \<lambda>a b. (True, Some (foreign_error ''rule failed''))]"

definition trial :: "nat Experiment" where
  "trial =
     \<lparr>Experiment.Name = ''trial'',
      behaviors = Mapping.of_alist
        [(''control'', func (returns (Some 5) None)),
         (''same'', func (returns (Some 5) None)),
         (''noisy'', func (returns (Some 6) None)),
         (''wrong'', func (returns (Some 7) None)),
         (''crash'', func (panics (string_payload ''boom'')))],
      comparator = trial_comparator,
      ignores = trial_ignores,
      beforeRun = (\<lambda>_. Some (foreign_error ''setup failed'')),
      publisher = (\<lambda>_. Some (foreign_error ''publish failed''))\<rparr>"

text \<open>One order of the range over the five keys, and what \<open>Run\<close> returns for it.\<close>

definition trial_order :: "string list" where
  "trial_order = [''wrong'', ''same'', ''control'', ''crash'', ''noisy'']"

definition trial_observation :: "string \<Rightarrow> nat Observation" where
  "trial_observation b =
     (if b = ''crash''
      then \<lparr>Observation.Name = b, Value = None, Observation.Err = Some (errors_New ''boom'')\<rparr>
      else \<lparr>Observation.Name = b,
            Value = Some (if b = ''noisy'' then 6 else if b = ''wrong'' then 7 else 5),
            Observation.Err = None\<rparr>)"

definition trial_error :: "string \<Rightarrow> string \<Rightarrow> nat ResultError" where
  "trial_error operation text =
     \<lparr>Operation = operation, Experiment = ''trial'', ResultError.Err = foreign_error text\<rparr>"

definition trial_published :: "nat Result" where
  "trial_published =
     \<lparr>Control = Some (trial_observation ''control''),
      Observations = map (\<lambda>b. Some (trial_observation b)) [''control'', ''wrong'', ''same'', ''crash'', ''noisy''],
      Candidates = map (\<lambda>b. Some (trial_observation b)) [''wrong'', ''same'', ''crash'', ''noisy''],
      Ignored = [Some (trial_observation ''noisy'')],
      Mismatched = [Some (trial_observation ''wrong''), Some (trial_observation ''crash'')],
      Errors = [trial_error ''before_run'' ''setup failed'',
                trial_error ''ignore'' ''rule failed'',
                trial_error ''compare'' ''cannot compare nil'',
                trial_error ''ignore'' ''rule failed'']\<rparr>"

definition trial_result :: "nat Result" where
  "trial_result =
     trial_published\<lparr>Errors := Errors trial_published @ [trial_error ''publish'' ''publish failed'']\<rparr>"

definition trial_calls :: "nat call list" where
  "trial_calls = [publisher_call trial_published, errorReporter_call (Errors trial_result)]"

text \<open>
  An experiment with the hooks of a new experiment: the comparator is equality, there is
  no ignore rule, and the pre-trial hook and the publisher do nothing.
\<close>

definition plain_experiment :: "(string \<times> 'a behaviorFunc) list \<Rightarrow> 'a Experiment" where
  "plain_experiment bs =
     \<lparr>Experiment.Name = ''plain'',
      behaviors = Mapping.of_alist bs,
      comparator = (\<lambda>a b. (a = b, None)),
      ignores = [],
      beforeRun = (\<lambda>_. None),
      publisher = (\<lambda>_. None)\<rparr>"

text \<open>No behavior at all, and a candidate without a control.\<close>

definition no_behaviors :: "nat Experiment" where
  "no_behaviors = plain_experiment []"

definition lone_candidate :: "nat Experiment" where
  "lone_candidate = plain_experiment [(''candidate'', func (returns (Some 5) None))]"




text \<open>
  A control and two candidates that agree with it, and the Result of a run whose range
  yielded the candidates in the order \<open>names\<close>.
\<close>

definition duo :: "nat Experiment" where
  "duo = plain_experiment
     [(''control'', func (returns (Some 5) None)),
      (''a'', func (returns (Some 5) None)),
      (''b'', func (returns (Some 5) None))]"

definition duo_observation :: "string \<Rightarrow> nat Observation option" where
  "duo_observation b = Some \<lparr>Observation.Name = b, Value = Some 5, Observation.Err = None\<rparr>"

definition duo_result :: "string list \<Rightarrow> nat Result" where
  "duo_result names =
     \<lparr>Control = duo_observation ''control'',
      Observations = duo_observation ''control'' # map duo_observation names,
      Candidates = map duo_observation names,
      Ignored = [], Mismatched = [], Errors = []\<rparr>"

section \<open>Properties of the loop and of the run\<close>

lemma Run_body_skip: "Run_body e name name b s = Inr s"
  by (simp add: Run_body_def split: prod.splits)

lemma Run_body_full: 
  assumes "bname \<noteq> name" "\<not> i < length (Candidates r)"
  shows "Run_body e name bname b (i, r) = Inl index_out_of_range"
  using assms by (simp add: Run_body_def Let_def)

lemma Run_body_step:
  assumes "bname \<noteq> name" "i < length (Candidates r)"
    "length (Observations r) = length (Candidates r) + 1" "Control r = Some control"
  shows "\<exists>r'. Run_body e name bname (behaviors_at e bname) (i, r) = Inr (i + 1, r')
     \<and> Control r' = Control r
     \<and> Candidates r' = (Candidates r)[i := Some (observation_of e bname)]
     \<and> Observations r' = (Observations r)[i + 1 := Some (observation_of e bname)]
     \<and> Ignored r' = Ignored r @ (if is_ignored e control (observation_of e bname) then [Some (observation_of e bname)] else [])
     \<and> Mismatched r' = Mismatched r @ (if is_reported e control (observation_of e bname) then [Some (observation_of e bname)] else [])
     \<and> Errors r' = Errors r @ compare_errors e control (observation_of e bname) @ ignore_errors e control (observation_of e bname)"
  using assms
  by (auto simp add: Run_body_def Let_def observation_of_def is_ignored_def is_reported_def is_mismatched_def
      compare_errors_def ignore_errors_def split: prod.splits option.splits)

lemma candidates_of_simps:
  "candidates_of name [] = []"
  "candidates_of name (name # ks) = candidates_of name ks"
  "b \<noteq> name \<Longrightarrow> candidates_of name (b # ks) = b # candidates_of name ks"
  by (simp_all add: candidates_of_def)

lemma Run_loop_ok:
  assumes "Control r = Some control"
    and "length (Observations r) = length (Candidates r) + 1"
    and "i + length (candidates_of name ks) \<le> length (Candidates r)"
  shows "\<exists>r'. Run_loop e name ks (i, r) = Inr (i + length (candidates_of name ks), r')
     \<and> Control r' = Control r
     \<and> Candidates r' = take i (Candidates r) @ map (\<lambda>b. Some (observation_of e b)) (candidates_of name ks)
          @ drop (i + length (candidates_of name ks)) (Candidates r)
     \<and> Observations r' = take (i + 1) (Observations r) @ map (\<lambda>b. Some (observation_of e b)) (candidates_of name ks)
          @ drop (i + 1 + length (candidates_of name ks)) (Observations r)
     \<and> Ignored r' = Ignored r @ map (\<lambda>b. Some (observation_of e b))
          (filter (\<lambda>b. is_ignored e control (observation_of e b)) (candidates_of name ks))
     \<and> Mismatched r' = Mismatched r @ map (\<lambda>b. Some (observation_of e b))
          (filter (\<lambda>b. is_reported e control (observation_of e b)) (candidates_of name ks))
     \<and> Errors r' = Errors r @ concat (map (errors_of e control) (candidates_of name ks))"
  using assms
proof (induction ks arbitrary: i r)
  case Nil
  then show ?case by (simp add: candidates_of_simps)
next
  case (Cons b ks)
  show ?case
  proof (cases "b = name")
    case True
    with Cons.prems have "i + length (candidates_of name ks) \<le> length (Candidates r)"
      by (simp add: candidates_of_simps)
    from Cons.IH [OF Cons.prems(1) Cons.prems(2) this] True show ?thesis
      by (simp add: candidates_of_simps Run_body_skip)
  next
    case False
    with Cons.prems have lt: "i < length (Candidates r)"
      and le: "(i + 1) + length (candidates_of name ks) \<le> length (Candidates r)"
      by (simp_all add: candidates_of_simps)
    from Run_body_step [OF False lt Cons.prems(2) Cons.prems(1), of e]
    obtain r1 where body: "Run_body e name b (behaviors_at e b) (i, r) = Inr (i + 1, r1)"
      and ctl: "Control r1 = Control r"
      and cand: "Candidates r1 = (Candidates r)[i := Some (observation_of e b)]"
      and obs: "Observations r1 = (Observations r)[i + 1 := Some (observation_of e b)]"
      and ign: "Ignored r1 = Ignored r @ (if is_ignored e control (observation_of e b) then [Some (observation_of e b)] else [])"
      and mis: "Mismatched r1 = Mismatched r @ (if is_reported e control (observation_of e b) then [Some (observation_of e b)] else [])"
      and errs: "Errors r1 = Errors r @ compare_errors e control (observation_of e b) @ ignore_errors e control (observation_of e b)"
      by blast
    have c1: "Control r1 = Some control" using ctl Cons.prems(1) by simp
    have l1: "length (Observations r1) = length (Candidates r1) + 1"
      using cand obs Cons.prems(2) by simp
    have le1: "(i + 1) + length (candidates_of name ks) \<le> length (Candidates r1)"
      using le cand by simp
    from Cons.IH [OF c1 l1 le1]
    obtain r' where loop: "Run_loop e name ks (i + 1, r1) = Inr (i + 1 + length (candidates_of name ks), r')"
      and ctl': "Control r' = Control r1"
      and cand': "Candidates r' = take (i + 1) (Candidates r1) @ map (\<lambda>b. Some (observation_of e b)) (candidates_of name ks)
          @ drop (i + 1 + length (candidates_of name ks)) (Candidates r1)"
      and obs': "Observations r' = take (i + 1 + 1) (Observations r1) @ map (\<lambda>b. Some (observation_of e b)) (candidates_of name ks)
          @ drop (i + 1 + 1 + length (candidates_of name ks)) (Observations r1)"
      and ign': "Ignored r' = Ignored r1 @ map (\<lambda>b. Some (observation_of e b))
          (filter (\<lambda>b. is_ignored e control (observation_of e b)) (candidates_of name ks))"
      and mis': "Mismatched r' = Mismatched r1 @ map (\<lambda>b. Some (observation_of e b))
          (filter (\<lambda>b. is_reported e control (observation_of e b)) (candidates_of name ks))"
      and errs': "Errors r' = Errors r1 @ concat (map (errors_of e control) (candidates_of name ks))"
      by blast
    have t1: "take (i + 1) (Candidates r1) = take i (Candidates r) @ [Some (observation_of e b)]"
      using lt cand by (simp add: take_Suc_conv_app_nth)
    have d1: "drop (i + 1 + length (candidates_of name ks)) (Candidates r1)
        = drop (i + 1 + length (candidates_of name ks)) (Candidates r)"
      using cand by simp
    have lt2: "i + 1 < length (Observations r)" using lt Cons.prems(2) by simp
    have t2: "take (i + 1 + 1) (Observations r1) = take (i + 1) (Observations r) @ [Some (observation_of e b)]"
      using lt2 obs by (simp add: take_Suc_conv_app_nth)
    have d2: "drop (i + 1 + 1 + length (candidates_of name ks)) (Observations r1)
        = drop (i + 1 + 1 + length (candidates_of name ks)) (Observations r)"
      using obs by simp
    have run: "Run_loop e name (b # ks) (i, r) = Inr (i + length (candidates_of name (b # ks)), r')"
      using body loop False by (simp add: candidates_of_simps)
    show ?thesis
    proof (intro exI conjI)
      show "Run_loop e name (b # ks) (i, r) = Inr (i + length (candidates_of name (b # ks)), r')"
        by (rule run)
      show "Control r' = Control r" using ctl ctl' by simp
      show "Candidates r' = take i (Candidates r) @ map (\<lambda>b. Some (observation_of e b)) (candidates_of name (b # ks))
          @ drop (i + length (candidates_of name (b # ks))) (Candidates r)"
        using cand' t1 d1 False by (simp add: candidates_of_simps)
      show "Observations r' = take (i + 1) (Observations r) @ map (\<lambda>b. Some (observation_of e b)) (candidates_of name (b # ks))
          @ drop (i + 1 + length (candidates_of name (b # ks))) (Observations r)"
        using obs' t2 d2 False by (simp add: candidates_of_simps)
      show "Ignored r' = Ignored r @ map (\<lambda>b. Some (observation_of e b))
          (filter (\<lambda>b. is_ignored e control (observation_of e b)) (candidates_of name (b # ks)))"
        using ign ign' False by (simp add: candidates_of_simps)
      show "Mismatched r' = Mismatched r @ map (\<lambda>b. Some (observation_of e b))
          (filter (\<lambda>b. is_reported e control (observation_of e b)) (candidates_of name (b # ks)))"
        using mis mis' False by (simp add: candidates_of_simps)
      show "Errors r' = Errors r @ concat (map (errors_of e control) (candidates_of name (b # ks)))"
        using errs errs' False by (simp add: candidates_of_simps errors_of_def)
    qed
  qed
qed

lemma Run_loop_overflow:
  assumes "Control r = Some control"
    and "length (Observations r) = length (Candidates r) + 1"
    and "i \<le> length (Candidates r)"
    and "length (Candidates r) < i + length (candidates_of name ks)"
  shows "Run_loop e name ks (i, r) = Inl index_out_of_range"
  using assms
proof (induction ks arbitrary: i r)
  case Nil
  then show ?case by (simp add: candidates_of_simps)
next
  case (Cons b ks)
  show ?case
  proof (cases "b = name")
    case True
    with Cons.prems have "length (Candidates r) < i + length (candidates_of name ks)"
      by (simp add: candidates_of_simps)
    from Cons.IH [OF Cons.prems(1) Cons.prems(2) Cons.prems(3) this] True show ?thesis
      by (simp add: Run_body_skip)
  next
    case False
    show ?thesis
    proof (cases "i < length (Candidates r)")
      case lt: True
      from Run_body_step [OF False lt Cons.prems(2) Cons.prems(1), of e]
      obtain r1 where body: "Run_body e name b (behaviors_at e b) (i, r) = Inr (i + 1, r1)"
        and ctl: "Control r1 = Control r"
        and cand: "Candidates r1 = (Candidates r)[i := Some (observation_of e b)]"
        and obs: "Observations r1 = (Observations r)[i + 1 := Some (observation_of e b)]"
        by blast
      have c1: "Control r1 = Some control" using ctl Cons.prems(1) by simp
      have l1: "length (Observations r1) = length (Candidates r1) + 1"
        using cand obs Cons.prems(2) by simp
      have le1: "i + 1 \<le> length (Candidates r1)" using lt cand by simp
      have gt1: "length (Candidates r1) < (i + 1) + length (candidates_of name ks)"
        using Cons.prems(4) False cand by (simp add: candidates_of_simps)
      from Cons.IH [OF c1 l1 le1 gt1] body show ?thesis by simp
    next
      case False
      with \<open>b \<noteq> name\<close> show ?thesis by (simp add: Run_body_full)
    qed
  qed
qed

lemma size_range_order: "range_order e ks \<Longrightarrow> Mapping.size (behaviors e) = length ks"
  by (simp add: range_order_def Mapping.size_def distinct_card [symmetric])

lemma length_candidates_of_registered:
  assumes "range_order e ks" and "name \<in> Mapping.keys (behaviors e)"
  shows "Suc (length (candidates_of name ks)) = length ks"
proof -
  from assms have d: "distinct ks" and m: "name \<in> set ks" by (simp_all add: range_order_def)
  have "length (filter (\<lambda>b. b = name) ks) = 1"
    using d m by (induction ks) (auto simp add: filter_empty_conv)
  moreover have "length (filter (\<lambda>b. b = name) ks) + length (filter (\<lambda>b. \<not> b = name) ks) = length ks"
    by (rule sum_length_filter_compl)
  ultimately show ?thesis by (simp add: candidates_of_def)
qed

lemma candidates_of_unregistered:
  assumes "range_order e ks" and "name \<notin> Mapping.keys (behaviors e)"
  shows "candidates_of name ks = ks"
  using assms by (auto simp add: range_order_def candidates_of_def filter_id_conv)

lemma Run_empty:
  assumes "Mapping.size (behaviors e) = 0"
  shows "Run e ks name = Inl makeslice_len_out_of_range"
  using assms by (simp add: Run_def Let_def)

lemma Run_nonempty:
  assumes "Mapping.size (behaviors e) \<noteq> 0"
  shows "Run e ks name =
     (case Run_loop e name ks (0, initial_result e name) of
        Inl p \<Rightarrow> Inl p
      | Inr (i, p) \<Rightarrow> Inr (published e p))"
proof -
  have a: "\<not> int (Mapping.size (behaviors e)) - 1 < 0" using assms by simp
  have b: "nat (int (Mapping.size (behaviors e)) - 1) = Mapping.size (behaviors e) - 1" by simp
  have c: "nat (int (Mapping.size (behaviors e)) - 1 + 1) = Mapping.size (behaviors e)" by simp
  show ?thesis
  proof (cases "beforeRun e ()")
    case None
    then show ?thesis
      using a b c
      by (simp add: Run_def Let_def initial_result_def before_errors_def observation_of_def
          published_def publish_errors_def split: sum.splits prod.splits option.splits)
  next
    case (Some err)
    then show ?thesis
      using a b c
      by (simp add: Run_def Let_def initial_result_def before_errors_def observation_of_def
          published_def publish_errors_def split: sum.splits prod.splits option.splits)
  qed
qed

lemma Run_unregistered:
  assumes "range_order e ks" and "name \<notin> Mapping.keys (behaviors e)"
  shows "Run e ks name = Inl (if ks = [] then makeslice_len_out_of_range else index_out_of_range)"
proof (cases "ks = []")
  case True
  with assms(1) have "Mapping.size (behaviors e) = 0" by (simp add: size_range_order)
  with True show ?thesis by (simp add: Run_empty)
next
  case False
  have sz: "Mapping.size (behaviors e) = length ks" using assms(1) by (rule size_range_order)
  have cs: "candidates_of name ks = ks" using assms by (rule candidates_of_unregistered)
  have "Run_loop e name ks (0, initial_result e name) = Inl index_out_of_range"
  proof (rule Run_loop_overflow)
    show "Control (initial_result e name) = Some (observation_of e name)"
      by (simp add: initial_result_def)
    show "length (Observations (initial_result e name)) = length (Candidates (initial_result e name)) + 1"
      using False sz by (simp add: initial_result_def)
    show "0 \<le> length (Candidates (initial_result e name))" by simp
    show "length (Candidates (initial_result e name)) < 0 + length (candidates_of name ks)"
      using False cs sz by (simp add: initial_result_def)
  qed
  then show ?thesis using False sz by (simp add: Run_nonempty)
qed

lemma Run_registered:
  assumes "range_order e ks" and "name \<in> Mapping.keys (behaviors e)"
  shows "\<exists>p. Run e ks name = Inr (published e p)
     \<and> Control p = Some (observation_of e name)
     \<and> Candidates p = map (\<lambda>b. Some (observation_of e b)) (candidates_of name ks)
     \<and> Observations p = Some (observation_of e name) # map (\<lambda>b. Some (observation_of e b)) (candidates_of name ks)
     \<and> Ignored p = map (\<lambda>b. Some (observation_of e b))
          (filter (\<lambda>b. is_ignored e (observation_of e name) (observation_of e b)) (candidates_of name ks))
     \<and> Mismatched p = map (\<lambda>b. Some (observation_of e b))
          (filter (\<lambda>b. is_reported e (observation_of e name) (observation_of e b)) (candidates_of name ks))
     \<and> Errors p = before_errors e @ concat (map (errors_of e (observation_of e name)) (candidates_of name ks))"
proof -
  let ?cs = "candidates_of name ks"
  let ?n = "length ?cs"
  let ?r = "initial_result e name"
  have sz: "Mapping.size (behaviors e) = Suc ?n"
    using assms by (simp add: size_range_order length_candidates_of_registered)
  have c4: "Control ?r = Some (observation_of e name)" by (simp add: initial_result_def)
  have l4: "length (Observations ?r) = length (Candidates ?r) + 1" using sz by (simp add: initial_result_def)
  have n4: "0 + ?n \<le> length (Candidates ?r)" using sz by (simp add: initial_result_def)
  from Run_loop_ok [OF c4 l4 n4, of e]
  obtain p where loop: "Run_loop e name ks (0, ?r) = Inr (0 + ?n, p)"
    and ctl: "Control p = Control ?r"
    and cand: "Candidates p = take 0 (Candidates ?r) @ map (\<lambda>b. Some (observation_of e b)) ?cs
          @ drop (0 + ?n) (Candidates ?r)"
    and obs: "Observations p = take (0 + 1) (Observations ?r) @ map (\<lambda>b. Some (observation_of e b)) ?cs
          @ drop (0 + 1 + ?n) (Observations ?r)"
    and ign: "Ignored p = Ignored ?r @ map (\<lambda>b. Some (observation_of e b))
          (filter (\<lambda>b. is_ignored e (observation_of e name) (observation_of e b)) ?cs)"
    and mis: "Mismatched p = Mismatched ?r @ map (\<lambda>b. Some (observation_of e b))
          (filter (\<lambda>b. is_reported e (observation_of e name) (observation_of e b)) ?cs)"
    and errs: "Errors p = Errors ?r @ concat (map (errors_of e (observation_of e name)) ?cs)"
    by blast
  have run: "Run e ks name = Inr (published e p)"
    using loop sz by (simp add: Run_nonempty)
  show ?thesis
  proof (intro exI conjI)
    show "Run e ks name = Inr (published e p)" by (rule run)
    show "Control p = Some (observation_of e name)" using ctl c4 by simp
    show "Candidates p = map (\<lambda>b. Some (observation_of e b)) ?cs"
      using cand sz by (simp add: initial_result_def)
    show "Observations p = Some (observation_of e name) # map (\<lambda>b. Some (observation_of e b)) ?cs"
      using obs sz by (simp add: initial_result_def)
    show "Ignored p = map (\<lambda>b. Some (observation_of e b))
          (filter (\<lambda>b. is_ignored e (observation_of e name) (observation_of e b)) ?cs)"
      using ign by (simp add: initial_result_def)
    show "Mismatched p = map (\<lambda>b. Some (observation_of e b))
          (filter (\<lambda>b. is_reported e (observation_of e name) (observation_of e b)) ?cs)"
      using mis by (simp add: initial_result_def)
    show "Errors p = before_errors e @ concat (map (errors_of e (observation_of e name)) ?cs)"
      using errs by (simp add: initial_result_def)
  qed
qed

lemma Run_completes_iff:
  assumes "range_order e ks"
  shows "(\<exists>out. Run e ks name = Inr out) \<longleftrightarrow> name \<in> Mapping.keys (behaviors e)"
proof (cases "name \<in> Mapping.keys (behaviors e)")
  case True
  from Run_registered [OF assms True] show ?thesis using True by blast
next
  case False
  from Run_unregistered [OF assms False] show ?thesis using False by simp
qed

lemma observe_Name: "Observation.Name (observe e name b) = name"
  by (simp add: observe_def Let_def split: prod.splits)

lemma observation_of_Name: "Observation.Name (observation_of e b) = b"
  by (simp add: observation_of_def observe_Name)

lemma observation_of_inj:
  assumes "observation_of e b = observation_of e b'"
  shows "b = b'"
proof -
  from assms have "Observation.Name (observation_of e b) = Observation.Name (observation_of e b')"
    by (rule arg_cong)
  then show ?thesis by (simp only: observation_of_Name)
qed

lemma Some_observation_of_in_map:
  "Some (observation_of e b) \<in> set (map (\<lambda>b. Some (observation_of e b)) bs) \<longleftrightarrow> b \<in> set bs"
  by (auto dest: observation_of_inj)

lemma set_candidates_of: "set (candidates_of name ks) = set ks - {name}"
  by (auto simp add: candidates_of_def)

lemma Run_InrD:
  assumes "range_order e ks" and "Run e ks name = Inr (r, log)"
  shows "name \<in> Mapping.keys (behaviors e) \<and>
     (\<exists>p. (r, log) = published e p
     \<and> Control p = Some (observation_of e name)
     \<and> Candidates p = map (\<lambda>b. Some (observation_of e b)) (candidates_of name ks)
     \<and> Observations p = Some (observation_of e name) # map (\<lambda>b. Some (observation_of e b)) (candidates_of name ks)
     \<and> Ignored p = map (\<lambda>b. Some (observation_of e b))
          (filter (\<lambda>b. is_ignored e (observation_of e name) (observation_of e b)) (candidates_of name ks))
     \<and> Mismatched p = map (\<lambda>b. Some (observation_of e b))
          (filter (\<lambda>b. is_reported e (observation_of e name) (observation_of e b)) (candidates_of name ks))
     \<and> Errors p = before_errors e @ concat (map (errors_of e (observation_of e name)) (candidates_of name ks)))"
proof -
  have reg: "name \<in> Mapping.keys (behaviors e)"
    using Run_completes_iff [OF assms(1), of name] assms(2) by auto
  from Run_registered [OF assms(1) reg] obtain p where run: "Run e ks name = Inr (published e p)"
    and rest: "Control p = Some (observation_of e name)
     \<and> Candidates p = map (\<lambda>b. Some (observation_of e b)) (candidates_of name ks)
     \<and> Observations p = Some (observation_of e name) # map (\<lambda>b. Some (observation_of e b)) (candidates_of name ks)
     \<and> Ignored p = map (\<lambda>b. Some (observation_of e b))
          (filter (\<lambda>b. is_ignored e (observation_of e name) (observation_of e b)) (candidates_of name ks))
     \<and> Mismatched p = map (\<lambda>b. Some (observation_of e b))
          (filter (\<lambda>b. is_reported e (observation_of e name) (observation_of e b)) (candidates_of name ks))
     \<and> Errors p = before_errors e @ concat (map (errors_of e (observation_of e name)) (candidates_of name ks))"
    by blast
  from run assms(2) have "(r, log) = published e p" by simp
  with rest have "\<exists>p. (r, log) = published e p
     \<and> Control p = Some (observation_of e name)
     \<and> Candidates p = map (\<lambda>b. Some (observation_of e b)) (candidates_of name ks)
     \<and> Observations p = Some (observation_of e name) # map (\<lambda>b. Some (observation_of e b)) (candidates_of name ks)
     \<and> Ignored p = map (\<lambda>b. Some (observation_of e b))
          (filter (\<lambda>b. is_ignored e (observation_of e name) (observation_of e b)) (candidates_of name ks))
     \<and> Mismatched p = map (\<lambda>b. Some (observation_of e b))
          (filter (\<lambda>b. is_reported e (observation_of e name) (observation_of e b)) (candidates_of name ks))
     \<and> Errors p = before_errors e @ concat (map (errors_of e (observation_of e name)) (candidates_of name ks))"
    by (intro exI [of _ p] conjI) simp_all
  with reg show ?thesis by (rule conjI)
qed

lemma published_fields:
  assumes "(r, log) = published e p"
  shows "Control r = Control p" "Candidates r = Candidates p" "Observations r = Observations p"
    "Ignored r = Ignored p" "Mismatched r = Mismatched p"
    "Errors r = Errors p @ publish_errors e p"
    "log = publisher_call p # (if Errors r = [] then [] else [errorReporter_call (Errors r)])"
    "r = p\<lparr>Errors := Errors r\<rparr>"
  using assms by (simp_all add: published_def)

lemma Run_classified:
  assumes "range_order e ks" and "Run e ks name = Inr (r, log)"
    and "bname \<in> Mapping.keys (behaviors e)" and "bname \<noteq> name"
  shows "Some (observation_of e bname) \<in> set (Candidates r)"
    and "Some (observation_of e bname) \<in> set (Ignored r)
           \<longleftrightarrow> is_ignored e (observation_of e name) (observation_of e bname)"
    and "Some (observation_of e bname) \<in> set (Mismatched r)
           \<longleftrightarrow> is_reported e (observation_of e name) (observation_of e bname)"
    and "set (errors_of e (observation_of e name) bname) \<subseteq> set (Errors r)"
proof -
  from Run_InrD [OF assms(1,2)] obtain p where pub: "(r, log) = published e p"
    and cand: "Candidates p = map (\<lambda>b. Some (observation_of e b)) (candidates_of name ks)"
    and ign: "Ignored p = map (\<lambda>b. Some (observation_of e b))
          (filter (\<lambda>b. is_ignored e (observation_of e name) (observation_of e b)) (candidates_of name ks))"
    and mis: "Mismatched p = map (\<lambda>b. Some (observation_of e b))
          (filter (\<lambda>b. is_reported e (observation_of e name) (observation_of e b)) (candidates_of name ks))"
    and errs: "Errors p = before_errors e @ concat (map (errors_of e (observation_of e name)) (candidates_of name ks))"
    by blast
  have mem: "bname \<in> set (candidates_of name ks)"
    using assms(1,3,4) by (simp add: set_candidates_of range_order_def)
  show "Some (observation_of e bname) \<in> set (Candidates r)"
    using mem cand published_fields(2) [OF pub] by (simp only: Some_observation_of_in_map)
  show "Some (observation_of e bname) \<in> set (Ignored r)
           \<longleftrightarrow> is_ignored e (observation_of e name) (observation_of e bname)"
    using mem ign published_fields(4) [OF pub] by (simp only: Some_observation_of_in_map) simp
  show "Some (observation_of e bname) \<in> set (Mismatched r)
           \<longleftrightarrow> is_reported e (observation_of e name) (observation_of e bname)"
    using mem mis published_fields(5) [OF pub] by (simp only: Some_observation_of_in_map) simp
  have "set (errors_of e (observation_of e name) bname)
      \<subseteq> set (concat (map (errors_of e (observation_of e name)) (candidates_of name ks)))"
    using mem by auto
  then show "set (errors_of e (observation_of e name) bname) \<subseteq> set (Errors r)"
    using errs published_fields(6) [OF pub] by auto
qed

subsection \<open>The example trial, evaluated\<close>

lemmas run_defs = Run_def Run_body_def observe_def runBehavior_def call_behavior_def behaviors_at_def
  mismatching_def ignoring_def resultErr_def behaviorNotFound_def Let_def Mapping.size_def lookup_of_alist
  eval_nat_numeral

lemma range_order_trial: "range_order trial trial_order"
  by (auto simp add: range_order_def trial_def trial_order_def)

lemma Run_trial: "Run trial trial_order ''control'' = Inr (trial_result, trial_calls)"
  by (simp add: run_defs trial_def trial_order_def trial_comparator_def trial_ignores_def
      trial_result_def trial_calls_def trial_published_def trial_observation_def trial_error_def)

subsection \<open>Further facts about the loop, the ignore rules and the example trial\<close>

lemma Run_body_shape:
  assumes "Run_body e name bname b (i, r) = Inr (i', r')"
  shows "length (Candidates r') = length (Candidates r)
     \<and> length (Observations r') = length (Observations r)
     \<and> Control r' = Control r
     \<and> Observations r' ! 0 = Observations r ! 0"
  using assms
  by (auto simp add: Run_body_def Let_def split: if_splits option.splits prod.splits)

lemma Run_loop_shape:
  assumes "Run_loop e name ks (i, r) = Inr (i', r')"
  shows "length (Candidates r') = length (Candidates r)
     \<and> length (Observations r') = length (Observations r)
     \<and> Control r' = Control r
     \<and> Observations r' ! 0 = Observations r ! 0"
  using assms
proof (induction ks arbitrary: i r)
  case Nil
  then show ?case by simp
next
  case (Cons b ks)
  from Cons.prems obtain i1 r1 where body: "Run_body e name b (behaviors_at e b) (i, r) = Inr (i1, r1)"
    and loop: "Run_loop e name ks (i1, r1) = Inr (i', r')"
    by (auto split: sum.splits)
  from Run_body_shape [OF body] Cons.IH [OF loop] show ?case by simp
qed

lemma ignoring_rules_ignore:
  assumes "\<forall>i\<in>set earlier. i (Value control) (Value c) = (False, None)"
    and "rule (Value control) (Value c) = (True, None)"
  shows "ignoring_rules (earlier @ rule # later) control c = (True, None)"
  using assms by (induction earlier) simp_all

lemma ignoring_rules_error:
  assumes "\<forall>i\<in>set earlier. i (Value control) (Value c) \<noteq> (True, None)"
    and "rule (Value control) (Value c) = (ok, Some err)"
  shows "\<exists>err'. ignoring_rules (earlier @ rule # later) control c = (False, Some err')"
  using assms
proof (induction earlier)
  case Nil
  then show ?case by simp
next
  case (Cons i earlier)
  obtain ok' e' where i: "i (Value control) (Value c) = (ok', e')" by (cases "i (Value control) (Value c)")
  show ?case
  proof (cases e')
    case None
    with i Cons.prems(1) have "ok' = False" by auto
    with i None Cons show ?thesis by simp
  next
    case (Some a)
    with i show ?thesis by simp
  qed
qed

lemma ignoring_rules_first_error:
  assumes "\<forall>i\<in>set earlier. i (Value control) (Value c) = (False, None)"
    and "rule (Value control) (Value c) = (ok, Some err)"
  shows "ignoring_rules (earlier @ rule # later) control c = (False, Some err)"
  using assms by (induction earlier) simp_all

lemmas trial_defs = trial_def trial_order_def trial_comparator_def trial_ignores_def
  trial_result_def trial_calls_def trial_published_def trial_observation_def trial_error_def

lemma observation_of_trial:
  "b \<in> set trial_order \<Longrightarrow> observation_of trial b = trial_observation b"
  by (auto simp add: observation_of_def run_defs trial_defs)

lemma distinct_candidates_of: "distinct ks \<Longrightarrow> distinct (candidates_of name ks)"
  by (simp add: candidates_of_def)

lemma is_ignored_not_reported:
  "\<not> (is_ignored e control c \<and> is_reported e control c)"
  by (simp add: is_ignored_def is_reported_def)

lemma trial_keys: "Mapping.keys (behaviors trial) = {''control'', ''same'', ''noisy'', ''wrong'', ''crash''}"
  by (simp add: trial_def)

lemma trial_values:
  "Value (observation_of trial ''control'') = Some 5"
  "Value (observation_of trial ''same'') = Some 5"
  "Value (observation_of trial ''noisy'') = Some 6"
  "Value (observation_of trial ''wrong'') = Some 7"
  "Value (observation_of trial ''crash'') = None"
  by (simp_all add: observation_of_trial trial_order_def trial_observation_def)

lemma Operation_before_errors: "x \<in> set (before_errors e) \<Longrightarrow> Operation x = ''before_run''"
  by (auto simp add: before_errors_def resultErr_def split: option.splits)

lemma Operation_compare_errors:
  "x \<in> set (compare_errors e control c) \<Longrightarrow> Operation x = ''compare''"
  by (cases "snd (mismatching e control c)") (simp_all add: compare_errors_def resultErr_def)

lemma Operation_ignore_errors:
  "x \<in> set (ignore_errors e control c) \<Longrightarrow> Operation x = ''ignore''"
  by (cases "snd (ignoring e control c)"; cases "is_mismatched e control c")
    (simp_all add: ignore_errors_def resultErr_def)

lemma Operation_errors_of:
  "x \<in> set (errors_of e control b) \<Longrightarrow> Operation x = ''compare'' \<or> Operation x = ''ignore''"
  using Operation_compare_errors [of x e control "observation_of e b"]
    Operation_ignore_errors [of x e control "observation_of e b"]
  by (auto simp add: errors_of_def)

section \<open>The claims\<close>

subsection \<open>C1: an unregistered control name\<close>

text \<open>
  Claim C1 says that \<open>Run\<close> returns a Result for every experiment and every requested
  control name, also when the name is not registered and when the map of behaviors is
  empty. The code panics there: with no behavior \<open>numCandidates\<close> is \<open>-1\<close> and the
  first \<^verbatim>\<open>make\<close> panics; with behaviors but no control the loop skips no key and its
  last store \<^verbatim>\<open>r.Candidates[i] = c\<close> is out of range. The control Observation had
  been made before, with the error of \<open>behaviorNotFound\<close>.
\<close>

theorem Run_unregistered_control_panics:
  "range_order no_behaviors []
   \<and> observe no_behaviors ''control'' (behaviors_at no_behaviors ''control'')
       = \<lparr>Observation.Name = ''control'', Value = None,
          Observation.Err = Some (behaviorNotFound no_behaviors ''control'')\<rparr>
   \<and> Run no_behaviors [] ''control'' = Inl makeslice_len_out_of_range
   \<and> range_order lone_candidate [''candidate'']
   \<and> observe lone_candidate ''control'' (behaviors_at lone_candidate ''control'')
       = \<lparr>Observation.Name = ''control'', Value = None,
          Observation.Err = Some (behaviorNotFound lone_candidate ''control'')\<rparr>
   \<and> Run lone_candidate [''candidate''] ''control'' = Inl index_out_of_range"
  by (simp add: run_defs range_order_def no_behaviors_def lone_candidate_def plain_experiment_def)

subsection \<open>C2: the shape of Observations\<close>

text \<open>
  Claim C2. For every completed trial, the Result satisfies
  \<open>len(Observations) = len(Candidates) + 1\<close> and \<open>Observations[0]\<close> is the control
  Observation (a non-nil pointer to the Observation of the requested control name).
\<close>

theorem Run_observations_shape:
  assumes "Run e ks name = Inr (r, log)"
  shows "length (Observations r) = length (Candidates r) + 1
     \<and> Observations r ! 0 = Control r
     \<and> Control r = Some (observe e name (behaviors_at e name))"
proof -
  have ne: "Mapping.size (behaviors e) \<noteq> 0"
    using assms Run_empty [of e ks name] by auto
  with assms obtain i p where loop: "Run_loop e name ks (0, initial_result e name) = Inr (i, p)"
    and pub: "(r, log) = published e p"
    by (auto simp add: Run_nonempty split: sum.splits)
  have init: "length (Observations (initial_result e name)) = length (Candidates (initial_result e name)) + 1"
    "Observations (initial_result e name) ! 0 = Control (initial_result e name)"
    "Control (initial_result e name) = Some (observe e name (behaviors_at e name))"
    using ne by (simp_all add: initial_result_def observation_of_def)
  from Run_loop_shape [OF loop] init published_fields(1-3) [OF pub] show ?thesis by simp
qed

theorem Run_observations_shape_witness:
  "Run trial trial_order ''control'' = Inr (trial_result, trial_calls)
     \<and> length (Observations trial_result) = 5
     \<and> length (Candidates trial_result) = 4
     \<and> Observations trial_result ! 0 = Control trial_result
     \<and> Control trial_result = Some (observe trial ''control'' (behaviors_at trial ''control''))"
proof -
  from Run_observations_shape [OF Run_trial]
  have "length (Observations trial_result) = length (Candidates trial_result) + 1
     \<and> Observations trial_result ! 0 = Control trial_result
     \<and> Control trial_result = Some (observe trial ''control'' (behaviors_at trial ''control''))" .
  moreover have "length (Candidates trial_result) = 4"
    by (simp add: trial_result_def trial_published_def)
  ultimately show ?thesis using Run_trial by simp
qed

subsection \<open>C3: Ignored and Mismatched partition the mismatching candidates\<close>

text \<open>
  Claim C3. In a completed trial Ignored and Mismatched are disjoint, every element of
  each is an element of Candidates, and so for every candidate Observation exactly one
  of three cases holds: it is in Candidates only, it is in Ignored, it is in Mismatched.
\<close>

theorem Run_classification_partition:
  assumes "range_order e ks" and "Run e ks name = Inr (r, log)"
  shows "set (Ignored r) \<inter> set (Mismatched r) = {}
     \<and> set (Ignored r) \<subseteq> set (Candidates r)
     \<and> set (Mismatched r) \<subseteq> set (Candidates r)
     \<and> (\<forall>c\<in>set (Candidates r).
           (c \<notin> set (Ignored r) \<and> c \<notin> set (Mismatched r))
         \<or> (c \<in> set (Ignored r) \<and> c \<notin> set (Mismatched r))
         \<or> (c \<notin> set (Ignored r) \<and> c \<in> set (Mismatched r)))"
proof -
  from Run_InrD [OF assms] obtain p where pub: "(r, log) = published e p"
    and cand: "Candidates p = map (\<lambda>b. Some (observation_of e b)) (candidates_of name ks)"
    and ign: "Ignored p = map (\<lambda>b. Some (observation_of e b))
          (filter (\<lambda>b. is_ignored e (observation_of e name) (observation_of e b)) (candidates_of name ks))"
    and mis: "Mismatched p = map (\<lambda>b. Some (observation_of e b))
          (filter (\<lambda>b. is_reported e (observation_of e name) (observation_of e b)) (candidates_of name ks))"
    by blast
  have r: "Candidates r = Candidates p" "Ignored r = Ignored p" "Mismatched r = Mismatched p"
    using published_fields [OF pub] by simp_all
  have disj: "set (Ignored r) \<inter> set (Mismatched r) = {}"
  proof (rule ccontr)
    assume "set (Ignored r) \<inter> set (Mismatched r) \<noteq> {}"
    then obtain c where "c \<in> set (Ignored r)" and "c \<in> set (Mismatched r)" by blast
    with r ign mis obtain b b' where b: "c = Some (observation_of e b)"
      "is_ignored e (observation_of e name) (observation_of e b)"
      and b': "c = Some (observation_of e b')"
      "is_reported e (observation_of e name) (observation_of e b')"
      by auto
    from b(1) b'(1) have "observation_of e b = observation_of e b'" by simp
    then have "b = b'" by (rule observation_of_inj)
    with b(2) b'(2) show False using is_ignored_not_reported by blast
  qed
  have sub1: "set (Ignored r) \<subseteq> set (Candidates r)" using r ign cand by auto
  have sub2: "set (Mismatched r) \<subseteq> set (Candidates r)" using r mis cand by auto
  from disj sub1 sub2 show ?thesis by blast
qed

theorem Run_classification_partition_witness:
  "range_order trial trial_order
   \<and> Run trial trial_order ''control'' = Inr (trial_result, trial_calls)
   \<and> Ignored trial_result = [Some (trial_observation ''noisy'')]
   \<and> Mismatched trial_result = [Some (trial_observation ''wrong''), Some (trial_observation ''crash'')]
   \<and> set (Ignored trial_result) \<inter> set (Mismatched trial_result) = {}
   \<and> set (Ignored trial_result) \<subseteq> set (Candidates trial_result)
   \<and> set (Mismatched trial_result) \<subseteq> set (Candidates trial_result)"
proof -
  from Run_classification_partition [OF range_order_trial Run_trial]
  have "set (Ignored trial_result) \<inter> set (Mismatched trial_result) = {}
     \<and> set (Ignored trial_result) \<subseteq> set (Candidates trial_result)
     \<and> set (Mismatched trial_result) \<subseteq> set (Candidates trial_result)"
    by blast
  moreover have "Ignored trial_result = [Some (trial_observation ''noisy'')]"
    "Mismatched trial_result = [Some (trial_observation ''wrong''), Some (trial_observation ''crash'')]"
    by (simp_all add: trial_result_def trial_published_def)
  ultimately show ?thesis using range_order_trial Run_trial by blast
qed

subsection \<open>C4: the order of the candidates\<close>

text \<open>
  Claim C4 says that the candidates are appended in a stable registration order, the
  same for every run of an experiment, with the control at index 0. The behaviors are
  the keys of a Go map, which keeps no registration order, and the loop ranges over the
  map: two runs of one experiment can meet the keys in different orders, and return
  the candidates in different orders.
\<close>

theorem Run_candidate_order_counterexample:
  "range_order duo [''control'', ''a'', ''b'']
   \<and> range_order duo [''b'', ''control'', ''a'']
   \<and> Run duo [''control'', ''a'', ''b''] ''control''
       = Inr (duo_result [''a'', ''b''], [publisher_call (duo_result [''a'', ''b''])])
   \<and> Run duo [''b'', ''control'', ''a''] ''control''
       = Inr (duo_result [''b'', ''a''], [publisher_call (duo_result [''b'', ''a''])])
   \<and> Candidates (duo_result [''a'', ''b'']) \<noteq> Candidates (duo_result [''b'', ''a''])
   \<and> Observations (duo_result [''a'', ''b'']) \<noteq> Observations (duo_result [''b'', ''a''])"
  by (simp add: run_defs range_order_def duo_def plain_experiment_def duo_result_def
      duo_observation_def insert_commute)

text \<open>
  Claim C4 as amended. In a completed trial the candidates are the Observations of the
  keys other than the control name, in the order in which the range over the map
  yielded the keys in this run, each once; Observations is the control followed by
  Candidates, so the control is at index 0.
\<close>

theorem Run_candidates_in_range_order:
  assumes "range_order e ks" and "Run e ks name = Inr (r, log)"
  shows "Candidates r = map (\<lambda>b. Some (observe e b (behaviors_at e b))) (filter (\<lambda>b. b \<noteq> name) ks)
     \<and> Observations r = Control r # Candidates r
     \<and> Control r = Some (observe e name (behaviors_at e name))
     \<and> distinct (Candidates r)"
proof -
  from Run_InrD [OF assms] obtain p where pub: "(r, log) = published e p"
    and ctl: "Control p = Some (observation_of e name)"
    and cand: "Candidates p = map (\<lambda>b. Some (observation_of e b)) (candidates_of name ks)"
    and obs: "Observations p = Some (observation_of e name) # map (\<lambda>b. Some (observation_of e b)) (candidates_of name ks)"
    by blast
  have r: "Control r = Control p" "Candidates r = Candidates p" "Observations r = Observations p"
    using published_fields [OF pub] by simp_all
  have "distinct (candidates_of name ks)"
    using assms(1) by (simp add: range_order_def distinct_candidates_of)
  then have "distinct (map (\<lambda>b. Some (observation_of e b)) (candidates_of name ks))"
    by (simp add: distinct_map inj_on_def observation_of_inj)
  with r ctl cand obs show ?thesis
    by (simp add: observation_of_def candidates_of_def)
qed

theorem Run_candidates_in_range_order_witness:
  "range_order trial trial_order
   \<and> Run trial trial_order ''control'' = Inr (trial_result, trial_calls)
   \<and> filter (\<lambda>b. b \<noteq> ''control'') trial_order = [''wrong'', ''same'', ''crash'', ''noisy'']
   \<and> Candidates trial_result
       = map (\<lambda>b. Some (observe trial b (behaviors_at trial b))) [''wrong'', ''same'', ''crash'', ''noisy'']
   \<and> Observations trial_result = Control trial_result # Candidates trial_result"
proof -
  have f: "filter (\<lambda>b. b \<noteq> ''control'') trial_order = [''wrong'', ''same'', ''crash'', ''noisy'']"
    by (simp add: trial_order_def)
  from Run_candidates_in_range_order [OF range_order_trial Run_trial]
  show ?thesis using range_order_trial Run_trial f by simp
qed

subsection \<open>C5: a failing comparator\<close>

text \<open>
  Claim C5. A candidate on which the comparator returns a non-nil error is treated as
  mismatched, whatever the comparator's boolean says: it ends in Mismatched or in
  Ignored, and the ResultError made by \<open>resultErr\<close> for the operation \<open>compare\<close> with
  that error is in the Errors of the Result.
\<close>

theorem comparator_error_is_mismatch:
  assumes "range_order e ks" and "Run e ks name = Inr (r, log)"
    and "bname \<in> Mapping.keys (behaviors e)" and "bname \<noteq> name"
    and "comparator e (Value (observation_of e name)) (Value (observation_of e bname))
           = (matching, Some err)"
  shows "(Some (observation_of e bname) \<in> set (Mismatched r)
          \<or> Some (observation_of e bname) \<in> set (Ignored r))
     \<and> resultErr e ''compare'' err \<in> set (Errors r)
     \<and> Operation (resultErr e ''compare'' err) = ''compare''"
proof -
  let ?control = "observation_of e name"
  let ?c = "observation_of e bname"
  have mm: "mismatching e ?control ?c = (\<not> matching, Some err)"
    using assms(5) by (simp add: mismatching_def)
  then have m: "is_mismatched e ?control ?c" by (simp add: is_mismatched_def)
  then have "is_ignored e ?control ?c \<or> is_reported e ?control ?c"
    by (auto simp add: is_ignored_def is_reported_def)
  with Run_classified(2,3) [OF assms(1-4)]
  have cls: "Some ?c \<in> set (Mismatched r) \<or> Some ?c \<in> set (Ignored r)" by blast
  have "resultErr e ''compare'' err \<in> set (errors_of e ?control bname)"
    using mm by (simp add: errors_of_def compare_errors_def)
  with Run_classified(4) [OF assms(1-4)]
  have err: "resultErr e ''compare'' err \<in> set (Errors r)" by blast
  have "Operation (resultErr e ''compare'' err) = ''compare''" by (simp add: resultErr_def)
  with cls err show ?thesis by blast
qed

theorem comparator_error_is_mismatch_witness:
  "range_order trial trial_order
   \<and> Run trial trial_order ''control'' = Inr (trial_result, trial_calls)
   \<and> ''crash'' \<in> Mapping.keys (behaviors trial)
   \<and> comparator trial (Value (observation_of trial ''control'')) (Value (observation_of trial ''crash''))
       = (True, Some (foreign_error ''cannot compare nil''))
   \<and> Some (observation_of trial ''crash'') \<in> set (Mismatched trial_result)
   \<and> resultErr trial ''compare'' (foreign_error ''cannot compare nil'') \<in> set (Errors trial_result)"
proof -
  have k: "''crash'' \<in> Mapping.keys (behaviors trial)" by (simp add: trial_keys)
  have n: "''crash'' \<noteq> ''control''" by simp
  have c: "comparator trial (Value (observation_of trial ''control'')) (Value (observation_of trial ''crash''))
       = (True, Some (foreign_error ''cannot compare nil''))"
    by (simp add: trial_values) (simp add: trial_def trial_comparator_def)
  have i: "Some (observation_of trial ''crash'') \<notin> set (Ignored trial_result)"
    by (simp add: observation_of_trial trial_order_def trial_result_def trial_published_def
        trial_observation_def)
  from comparator_error_is_mismatch [OF range_order_trial Run_trial k n c] i
  show ?thesis using range_order_trial Run_trial k c by blast
qed

subsection \<open>C6: a failing ignore rule\<close>

text \<open>
  Claim C6. Take a mismatched candidate and an ignore rule that returns a non-nil error
  on it, no earlier rule having returned \<open>(true, nil)\<close>. Then \<open>ignoring\<close> returns
  \<open>(false, err')\<close> for the error \<open>err'\<close> of the first failing rule, the candidate is in
  Mismatched and not in Ignored, and the ResultError made by \<open>resultErr\<close> for the
  operation \<open>ignore\<close> with \<open>err'\<close> is in the Errors of the Result. When the earlier rules
  all returned \<open>(false, nil)\<close>, \<open>err'\<close> is the error of the rule itself.
\<close>

theorem ignore_rule_error_reports_mismatch:
  assumes "range_order e ks" and "Run e ks name = Inr (r, log)"
    and "bname \<in> Mapping.keys (behaviors e)" and "bname \<noteq> name"
    and "mismatching e (observation_of e name) (observation_of e bname) = (mismatched, cerr)"
    and "mismatched \<or> cerr \<noteq> None"
    and "ignores e = earlier @ rule # later"
    and "\<forall>i\<in>set earlier.
           i (Value (observation_of e name)) (Value (observation_of e bname)) \<noteq> (True, None)"
    and "rule (Value (observation_of e name)) (Value (observation_of e bname)) = (ok, Some err)"
  shows "Some (observation_of e bname) \<in> set (Mismatched r)
     \<and> Some (observation_of e bname) \<notin> set (Ignored r)
     \<and> (\<exists>err'. ignoring e (observation_of e name) (observation_of e bname) = (False, Some err')
           \<and> resultErr e ''ignore'' err' \<in> set (Errors r)
           \<and> Operation (resultErr e ''ignore'' err') = ''ignore''
           \<and> ((\<forall>i\<in>set earlier.
                  i (Value (observation_of e name)) (Value (observation_of e bname)) = (False, None))
                \<longrightarrow> err' = err))"
proof -
  let ?control = "observation_of e name"
  let ?c = "observation_of e bname"
  from ignoring_rules_error
    [where control = "observation_of e name" and c = "observation_of e bname" and later = later
      and earlier = earlier and rule = rule,
      OF assms(8,9)]
  obtain err' where ig: "ignoring e ?control ?c = (False, Some err')"
    by (auto simp add: ignoring_def assms(7))
  have m: "is_mismatched e ?control ?c"
    using assms(5,6) by (auto simp add: is_mismatched_def)
  have rep: "is_reported e ?control ?c" using m ig by (simp add: is_reported_def)
  have nign: "\<not> is_ignored e ?control ?c" using ig by (simp add: is_ignored_def)
  have "resultErr e ''ignore'' err' \<in> set (errors_of e ?control bname)"
    using m ig by (simp add: errors_of_def ignore_errors_def)
  with Run_classified(4) [OF assms(1-4)]
  have err: "resultErr e ''ignore'' err' \<in> set (Errors r)" by blast
  have op: "Operation (resultErr e ''ignore'' err') = ''ignore''" by (simp add: resultErr_def)
  have first: "(\<forall>i\<in>set earlier. i (Value ?control) (Value ?c) = (False, None)) \<longrightarrow> err' = err"
  proof
    assume "\<forall>i\<in>set earlier. i (Value ?control) (Value ?c) = (False, None)"
    from ignoring_rules_first_error
      [where control = "observation_of e name" and c = "observation_of e bname" and later = later
      and earlier = earlier and rule = rule,
        OF this assms(9)] ig
    show "err' = err" by (simp add: ignoring_def assms(7))
  qed
  from Run_classified(2,3) [OF assms(1-4)] rep nign
  have "Some ?c \<in> set (Mismatched r)" and "Some ?c \<notin> set (Ignored r)" by blast+
  with ig err op first show ?thesis by blast
qed

theorem ignore_rule_error_reports_mismatch_witness:
  "range_order trial trial_order
   \<and> Run trial trial_order ''control'' = Inr (trial_result, trial_calls)
   \<and> ''wrong'' \<in> Mapping.keys (behaviors trial)
   \<and> mismatching trial (observation_of trial ''control'') (observation_of trial ''wrong'') = (True, None)
   \<and> ignores trial = take 2 trial_ignores @ (trial_ignores ! 2) # []
   \<and> (trial_ignores ! 2) (Value (observation_of trial ''control'')) (Value (observation_of trial ''wrong''))
       = (True, Some (foreign_error ''rule failed''))
   \<and> Some (observation_of trial ''wrong'') \<in> set (Mismatched trial_result)
   \<and> Some (observation_of trial ''wrong'') \<notin> set (Ignored trial_result)
   \<and> resultErr trial ''ignore'' (foreign_error ''rule failed'') \<in> set (Errors trial_result)"
proof -
  let ?cv = "Value (observation_of trial ''control'')"
  let ?v = "Value (observation_of trial ''wrong'')"
  have k: "''wrong'' \<in> Mapping.keys (behaviors trial)" by (simp add: trial_keys)
  have n: "''wrong'' \<noteq> ''control''" by simp
  have m: "mismatching trial (observation_of trial ''control'') (observation_of trial ''wrong'') = (True, None)"
    by (simp add: mismatching_def trial_values) (simp add: trial_def trial_comparator_def)
  have d: "True \<or> (None :: nat error option) \<noteq> None" by simp
  have s: "ignores trial = take 2 trial_ignores @ (trial_ignores ! 2) # []"
    by (simp add: trial_def trial_ignores_def eval_nat_numeral)
  have e1: "\<forall>i\<in>set (take 2 trial_ignores). i ?cv ?v = (False, None)"
    by (simp add: trial_values) (simp add: trial_ignores_def eval_nat_numeral)
  have e: "\<forall>i\<in>set (take 2 trial_ignores). i ?cv ?v \<noteq> (True, None)"
  proof
    fix i
    assume "i \<in> set (take 2 trial_ignores)"
    with e1 have "i ?cv ?v = (False, None)" by blast
    then show "i ?cv ?v \<noteq> (True, None)" by simp
  qed
  have f: "(trial_ignores ! 2) ?cv ?v = (True, Some (foreign_error ''rule failed''))"
    by (simp add: trial_ignores_def eval_nat_numeral)
  from ignore_rule_error_reports_mismatch [OF range_order_trial Run_trial k n m d s e f] e1
  have "Some (observation_of trial ''wrong'') \<in> set (Mismatched trial_result)
     \<and> Some (observation_of trial ''wrong'') \<notin> set (Ignored trial_result)
     \<and> resultErr trial ''ignore'' (foreign_error ''rule failed'') \<in> set (Errors trial_result)"
    by blast
  with range_order_trial Run_trial k m s f show ?thesis by blast
qed

subsection \<open>C7: a behavior that panics\<close>




subsection \<open>C8: a matching candidate\<close>

text \<open>
  Claim C8. A candidate for which the comparator returns \<open>(true, nil)\<close> is in Candidates
  and in neither Ignored nor Mismatched.
\<close>

theorem matching_candidate_unclassified:
  assumes "range_order e ks" and "Run e ks name = Inr (r, log)"
    and "bname \<in> Mapping.keys (behaviors e)" and "bname \<noteq> name"
    and "comparator e (Value (observation_of e name)) (Value (observation_of e bname))
           = (True, None)"
  shows "Some (observation_of e bname) \<in> set (Candidates r)
     \<and> Some (observation_of e bname) \<notin> set (Ignored r)
     \<and> Some (observation_of e bname) \<notin> set (Mismatched r)"
proof -
  let ?control = "observation_of e name"
  let ?c = "observation_of e bname"
  have "mismatching e ?control ?c = (False, None)"
    using assms(5) by (simp add: mismatching_def)
  then have "\<not> is_mismatched e ?control ?c" by (simp add: is_mismatched_def)
  then have "\<not> is_ignored e ?control ?c" and "\<not> is_reported e ?control ?c"
    by (simp_all add: is_ignored_def is_reported_def)
  with Run_classified(1-3) [OF assms(1-4)] show ?thesis by blast
qed

theorem matching_candidate_unclassified_witness:
  "range_order trial trial_order
   \<and> Run trial trial_order ''control'' = Inr (trial_result, trial_calls)
   \<and> ''same'' \<in> Mapping.keys (behaviors trial)
   \<and> comparator trial (Value (observation_of trial ''control'')) (Value (observation_of trial ''same''))
       = (True, None)
   \<and> Some (observation_of trial ''same'') \<in> set (Candidates trial_result)
   \<and> Some (observation_of trial ''same'') \<notin> set (Ignored trial_result)
   \<and> Some (observation_of trial ''same'') \<notin> set (Mismatched trial_result)"
proof -
  have k: "''same'' \<in> Mapping.keys (behaviors trial)" by (simp add: trial_keys)
  have n: "''same'' \<noteq> ''control''" by simp
  have c: "comparator trial (Value (observation_of trial ''control'')) (Value (observation_of trial ''same''))
       = (True, None)"
    by (simp add: trial_values) (simp add: trial_def trial_comparator_def)
  from matching_candidate_unclassified [OF range_order_trial Run_trial k n c]
  show ?thesis using range_order_trial Run_trial k c by blast
qed

subsection \<open>C9: the first ignore rule that says ignore\<close>

text \<open>
  Claim C9. Take a mismatched candidate and an ignore rule that returns \<open>(true, nil)\<close> on
  it, every earlier rule having returned \<open>(false, nil)\<close>. Then \<open>ignoring\<close> returns
  \<open>(true, nil)\<close> whatever the later rules are, and the candidate is in Ignored and not in
  Mismatched.
\<close>

theorem first_ignore_rule_short_circuits:
  assumes "range_order e ks" and "Run e ks name = Inr (r, log)"
    and "bname \<in> Mapping.keys (behaviors e)" and "bname \<noteq> name"
    and "mismatching e (observation_of e name) (observation_of e bname) = (mismatched, cerr)"
    and "mismatched \<or> cerr \<noteq> None"
    and "ignores e = earlier @ rule # later"
    and "\<forall>i\<in>set earlier.
           i (Value (observation_of e name)) (Value (observation_of e bname)) = (False, None)"
    and "rule (Value (observation_of e name)) (Value (observation_of e bname)) = (True, None)"
  shows "ignoring e (observation_of e name) (observation_of e bname) = (True, None)
     \<and> Some (observation_of e bname) \<in> set (Ignored r)
     \<and> Some (observation_of e bname) \<notin> set (Mismatched r)"
proof -
  let ?control = "observation_of e name"
  let ?c = "observation_of e bname"
  from ignoring_rules_ignore
    [where control = "observation_of e name" and c = "observation_of e bname" and later = later
      and earlier = earlier and rule = rule,
      OF assms(8,9)]
  have ig: "ignoring e ?control ?c = (True, None)"
    by (simp add: ignoring_def assms(7))
  have m: "is_mismatched e ?control ?c"
    using assms(5,6) by (auto simp add: is_mismatched_def)
  have "is_ignored e ?control ?c" and "\<not> is_reported e ?control ?c"
    using m ig by (simp_all add: is_ignored_def is_reported_def)
  with Run_classified(2,3) [OF assms(1-4)] ig show ?thesis by blast
qed

theorem first_ignore_rule_short_circuits_witness:
  "range_order trial trial_order
   \<and> Run trial trial_order ''control'' = Inr (trial_result, trial_calls)
   \<and> ''noisy'' \<in> Mapping.keys (behaviors trial)
   \<and> mismatching trial (observation_of trial ''control'') (observation_of trial ''noisy'') = (True, None)
   \<and> ignores trial = take 1 trial_ignores @ (trial_ignores ! 1) # drop 2 trial_ignores
   \<and> length (drop 2 trial_ignores) = 1
   \<and> (trial_ignores ! 1) (Value (observation_of trial ''control'')) (Value (observation_of trial ''noisy''))
       = (True, None)
   \<and> (trial_ignores ! 2) (Value (observation_of trial ''control'')) (Value (observation_of trial ''noisy''))
       = (True, Some (foreign_error ''rule failed''))
   \<and> ignoring trial (observation_of trial ''control'') (observation_of trial ''noisy'') = (True, None)
   \<and> Some (observation_of trial ''noisy'') \<in> set (Ignored trial_result)
   \<and> Some (observation_of trial ''noisy'') \<notin> set (Mismatched trial_result)"
proof -
  let ?cv = "Value (observation_of trial ''control'')"
  let ?v = "Value (observation_of trial ''noisy'')"
  have k: "''noisy'' \<in> Mapping.keys (behaviors trial)" by (simp add: trial_keys)
  have n: "''noisy'' \<noteq> ''control''" by simp
  have m: "mismatching trial (observation_of trial ''control'') (observation_of trial ''noisy'') = (True, None)"
    by (simp add: mismatching_def trial_values) (simp add: trial_def trial_comparator_def)
  have d: "True \<or> (None :: nat error option) \<noteq> None" by simp
  have s: "ignores trial = take 1 trial_ignores @ (trial_ignores ! 1) # drop 2 trial_ignores"
    by (simp add: trial_def trial_ignores_def eval_nat_numeral)
  have l: "length (drop 2 trial_ignores) = 1" by (simp add: trial_ignores_def)
  have e: "\<forall>i\<in>set (take 1 trial_ignores). i ?cv ?v = (False, None)"
    by (simp add: trial_ignores_def)
  have f: "(trial_ignores ! 1) ?cv ?v = (True, None)"
    by (simp add: trial_values) (simp add: trial_ignores_def)
  have g: "(trial_ignores ! 2) ?cv ?v = (True, Some (foreign_error ''rule failed''))"
    by (simp add: trial_ignores_def eval_nat_numeral)
  from first_ignore_rule_short_circuits [OF range_order_trial Run_trial k n m d s e f]
  show ?thesis using range_order_trial Run_trial k m s l f g by blast
qed

subsection \<open>C10: what the publisher receives\<close>

text \<open>
  Claim C10. The publisher is called once, with the Result as it stands after the loop:
  its Errors are the ResultErrors of the pre-trial hook, of the comparator and of the
  ignore rules collected so far, none of them of the operation \<open>publish\<close>. The Result
  returned differs from it at most in Errors, which has the ResultError of the
  operation \<open>publish\<close> appended when the publisher fails; the error reporter is called
  with the Errors of the returned Result when they are not empty.
\<close>

theorem publisher_receives_earlier_errors:
  assumes "range_order e ks" and "Run e ks name = Inr (r, log)"
  shows "\<exists>p. log = publisher_call p # (if Errors r = [] then [] else [errorReporter_call (Errors r)])
     \<and> r = p\<lparr>Errors := Errors r\<rparr>
     \<and> Errors p = before_errors e
          @ concat (map (errors_of e (observation_of e name)) (candidates_of name ks))
     \<and> (\<forall>x\<in>set (Errors p).
           Operation x = ''before_run'' \<or> Operation x = ''compare'' \<or> Operation x = ''ignore'')
     \<and> (\<forall>x\<in>set (Errors p). Operation x \<noteq> ''publish'')
     \<and> Errors r = Errors p
          @ (case publisher e p of None \<Rightarrow> [] | Some err \<Rightarrow> [resultErr e ''publish'' err])"
proof -
  from Run_InrD [OF assms] obtain p where pub: "(r, log) = published e p"
    and errs: "Errors p = before_errors e
          @ concat (map (errors_of e (observation_of e name)) (candidates_of name ks))"
    by blast
  have ops: "\<forall>x\<in>set (Errors p).
      Operation x = ''before_run'' \<or> Operation x = ''compare'' \<or> Operation x = ''ignore''"
    using errs Operation_before_errors [of _ e] Operation_errors_of [of _ e "observation_of e name"]
    by auto
  then have nop: "\<forall>x\<in>set (Errors p). Operation x \<noteq> ''publish''" by auto
  have fin: "Errors r = Errors p
          @ (case publisher e p of None \<Rightarrow> [] | Some err \<Rightarrow> [resultErr e ''publish'' err])"
    using published_fields(6) [OF pub] by (simp add: publish_errors_def split: option.splits)
  from published_fields(7,8) [OF pub] errs ops nop fin show ?thesis by blast
qed

theorem publisher_receives_earlier_errors_witness:
  "range_order trial trial_order
   \<and> Run trial trial_order ''control'' = Inr (trial_result, trial_calls)
   \<and> trial_calls = [publisher_call trial_published, errorReporter_call (Errors trial_result)]
   \<and> map Operation (Errors trial_published) = [''before_run'', ''ignore'', ''compare'', ''ignore'']
   \<and> publisher trial trial_published = Some (foreign_error ''publish failed'')
   \<and> Errors trial_result
       = Errors trial_published @ [resultErr trial ''publish'' (foreign_error ''publish failed'')]"
proof -
  from publisher_receives_earlier_errors [OF range_order_trial Run_trial]
  obtain p where log: "trial_calls
      = publisher_call p # (if Errors trial_result = [] then [] else [errorReporter_call (Errors trial_result)])"
    and fin: "Errors trial_result = Errors p
          @ (case publisher trial p of None \<Rightarrow> [] | Some err \<Rightarrow> [resultErr trial ''publish'' err])"
    by blast
  from log have p: "p = trial_published" by (simp add: trial_calls_def)
  have pf: "publisher trial trial_published = Some (foreign_error ''publish failed'')"
    by (simp add: trial_def)
  have ops: "map Operation (Errors trial_published) = [''before_run'', ''ignore'', ''compare'', ''ignore'']"
    by (simp add: trial_published_def trial_error_def)
  from fin p pf have "Errors trial_result
       = Errors trial_published @ [resultErr trial ''publish'' (foreign_error ''publish failed'')]"
    by simp
  with range_order_trial Run_trial pf ops show ?thesis by (simp add: trial_calls_def)
qed

end
